theory Spec2Isabelle
  imports Complex_Main
begin

text \<open>
  A model of the activity-recognition core of HAR: the sample buffer and the feature
  extraction of \<open>hooks/useSensors.ts\<close>, the classification call of
  \<open>services/aiService.ts\<close>, and the start/stop handlers and the analysis loop of
  \<open>App.tsx\<close>. Mutable refs and React state are fields of one state record, every handler is
  a function on that record, and what is asynchronous in the source (the interval, the
  pending \<open>classifyActivity\<close> promise) is an event of a step function. Numbers are IEEE-754
  doubles, and a parsed backend response is an arbitrary JSON value.
\<close>

section \<open>Numbers (IEEE-754 doubles)\<close>

text \<open>
  A JavaScript \<open>number\<close> is a double: a finite value, one of the two infinities, or NaN.
  \<open>Finite r\<close> stands for the double of value \<open>r\<close>. The two zeros are not told apart: they
  are equal under \<open>===\<close>, and the only divisor in this program is an array length, which is
  never \<open>-0\<close>.
\<close>

datatype jsnum = Finite real | PosInf | NegInf | NaN

text \<open>Not NaN (a finite value or an infinity).\<close>

fun is_number :: "jsnum \<Rightarrow> bool" where
  "is_number NaN = False"
| "is_number v = True"

text \<open>Zero or above, \<open>+Infinity\<close> included.\<close>

fun nonneg :: "jsnum \<Rightarrow> bool" where
  "nonneg (Finite r) = (0 \<le> r)"
| "nonneg PosInf = True"
| "nonneg NegInf = False"
| "nonneg NaN = False"

text \<open>Rounding a real to the nearest integer, a tie going to the even one.\<close>

definition rhe :: "real \<Rightarrow> int" where
  "rhe y =
     (let f = \<lfloor>y\<rfloor>; d = y - of_int f
      in if d < 1 / 2 then f else if 1 / 2 < d then f + 1 else if even f then f else f + 1)"


text \<open>
  Rounding a real to a double, to nearest with ties to even: the binary exponent of \<open>x\<close>,
  not below that of the subnormal numbers; the spacing of the doubles around \<open>x\<close> (53
  significant bits); the nearest multiple of that spacing; and overflow to an infinity from
  \<open>2 ^ 1024\<close> on.
\<close>

definition expo :: "real \<Rightarrow> int" where
  "expo x = max \<lfloor>log 2 \<bar>x\<bar>\<rfloor> (- 1022)"

definition ulp :: "real \<Rightarrow> real" where
  "ulp x = 2 powr (of_int (expo x) - 52)"

definition nearest :: "real \<Rightarrow> real" where
  "nearest x = (if x = 0 then 0 else of_int (rhe (x / ulp x)) * ulp x)"

definition rnd :: "real \<Rightarrow> jsnum" where
  "rnd x =
     (let r = nearest x
      in if 2 ^ 1024 \<le> r then PosInf else if r \<le> - (2 ^ 1024) then NegInf else Finite r)"

text \<open>The reals that are doubles: those that rounding leaves alone.\<close>

definition is_double :: "real \<Rightarrow> bool" where
  "is_double x = (rnd x = Finite x)"

text \<open>
  The operations the feature extraction uses: \<open>a + b\<close>, \<open>a - b\<close>, \<open>a / b\<close>,
  \<open>Math.pow(a, 2)\<close> and \<open>Math.sqrt(a)\<close>. Sum, difference and quotient are the exact result
  rounded, as the language requires; square and square root are taken to be correctly
  rounded too. A zero divisor is \<open>+0\<close>.
\<close>

fun fneg :: "jsnum \<Rightarrow> jsnum" where
  "fneg (Finite a) = Finite (- a)"
| "fneg PosInf = NegInf"
| "fneg NegInf = PosInf"
| "fneg NaN = NaN"

fun fadd :: "jsnum \<Rightarrow> jsnum \<Rightarrow> jsnum" where
  "fadd NaN b = NaN"
| "fadd a NaN = NaN"
| "fadd (Finite a) (Finite b) = rnd (a + b)"
| "fadd PosInf NegInf = NaN"
| "fadd NegInf PosInf = NaN"
| "fadd PosInf b = PosInf"
| "fadd a PosInf = PosInf"
| "fadd NegInf b = NegInf"
| "fadd a NegInf = NegInf"

definition fsub :: "jsnum \<Rightarrow> jsnum \<Rightarrow> jsnum" where
  "fsub a b = fadd a (fneg b)"

fun fdiv :: "jsnum \<Rightarrow> jsnum \<Rightarrow> jsnum" where
  "fdiv NaN b = NaN"
| "fdiv a NaN = NaN"
| "fdiv (Finite a) (Finite b) =
     (if b = 0 then (if a = 0 then NaN else if 0 < a then PosInf else NegInf)
      else rnd (a / b))"
| "fdiv (Finite a) b = Finite 0"
| "fdiv a (Finite b) = (if 0 \<le> b then a else fneg a)"
| "fdiv a b = NaN"

fun fpow2 :: "jsnum \<Rightarrow> jsnum" where
  "fpow2 (Finite a) = rnd (a ^ 2)"
| "fpow2 PosInf = PosInf"
| "fpow2 NegInf = PosInf"
| "fpow2 NaN = NaN"

fun fsqrt :: "jsnum \<Rightarrow> jsnum" where
  "fsqrt (Finite a) = (if a < 0 then NaN else rnd (sqrt a))"
| "fsqrt PosInf = PosInf"
| "fsqrt NegInf = NaN"
| "fsqrt NaN = NaN"

section \<open>Data model (types.ts)\<close>

text \<open>
  The six channels of a \<open>SensorData\<close> sample are finite numbers: \<open>handleMotion\<close> replaces
  every missing, null or NaN channel by 0 before the sample is stored, and the sensor
  interface delivers no infinity. A channel is therefore a real, meant to be a double
  (\<open>is_double\<close>, stated where a result depends on it). The fields carry the prefix
  \<open>sd_\<close>, since \<open>x\<close>, \<open>y\<close> and \<open>z\<close> would otherwise capture the usual variable names.
\<close>

record SensorData =
  sd_x :: real
  sd_y :: real
  sd_z :: real
  sd_alpha :: real
  sd_beta :: real
  sd_gamma :: real
  sd_timestamp :: int

record ProcessedFeatures =
  acc_x_mean :: jsnum
  acc_x_std :: jsnum
  acc_y_mean :: jsnum
  acc_y_std :: jsnum
  acc_z_mean :: jsnum
  acc_z_std :: jsnum
  gyro_alpha_mean :: jsnum
  gyro_alpha_std :: jsnum
  gyro_beta_mean :: jsnum
  gyro_beta_std :: jsnum
  gyro_gamma_mean :: jsnum
  gyro_gamma_std :: jsnum

text \<open>
  A value that \<open>JSON.parse\<close> can return. \<open>JObj\<close> lists the properties of an object, one
  entry for each key.
\<close>

datatype json =
    JNull
  | JBool bool
  | JNum jsnum
  | JStr string
  | JArr "json list"
  | JObj "(string \<times> json) list"

text \<open>The values that count as true in \<open>v || w\<close>.\<close>

fun truthy :: "json \<Rightarrow> bool" where
  "truthy JNull = False"
| "truthy (JBool b) = b"
| "truthy (JNum n) = (n \<noteq> Finite 0 \<and> n \<noteq> NaN)"
| "truthy (JStr s) = (s \<noteq> [])"
| "truthy (JArr vs) = True"
| "truthy (JObj props) = True"

text \<open>
  The property \<open>key\<close> of \<open>{...v}\<close>, for a key that is not an index: an object gives its
  own property or undefined (\<open>None\<close>); null, booleans and numbers spread to nothing, strings
  and arrays only to index keys.
\<close>

fun spread_prop :: "json \<Rightarrow> string \<Rightarrow> json option" where
  "spread_prop (JObj props) key = map_of props key"
| "spread_prop v key = None"



text \<open>
  The object that \<open>classifyActivity\<close> resolves to, read through the five properties the
  program uses. The interface \<open>ActivityPrediction\<close> declares the first four as string,
  number, string and string; at run time they hold whatever the parsed response holds, or
  are undefined. An object with the declared types is a Label.
\<close>

record ActivityPrediction =
  activity :: "json option"
  confidence :: "json option"
  emoji :: "json option"
  reasoning :: "json option"
  timestamp :: int



datatype AppState = IDLE | RECORDING | ANALYZING | ERROR

section \<open>Sample buffer and feature extraction (hooks/useSensors.ts)\<close>

definition MAX_BUFFER_SIZE :: nat where
  "MAX_BUFFER_SIZE = 100"

text \<open>
  A \<open>DeviceMotionEvent\<close>: both groups of readings may be null, and so may each reading.
\<close>

record DeviceMotionEvent =
  accelerationIncludingGravity :: "(real option \<times> real option \<times> real option) option"
  rotationRate :: "(real option \<times> real option \<times> real option) option"

text \<open>\<open>v || 0\<close> on a reading that is a number or null.\<close>

definition or_zero :: "real option \<Rightarrow> real" where
  "or_zero v = (case v of None \<Rightarrow> 0 | Some r \<Rightarrow> r)"

text \<open>\<open>group || { x: 0, y: 0, z: 0 }\<close>.\<close>

definition or_zeros :: "(real option \<times> real option \<times> real option) option
    \<Rightarrow> real option \<times> real option \<times> real option" where
  "or_zeros g = (case g of None \<Rightarrow> (Some 0, Some 0, Some 0) | Some t \<Rightarrow> t)"

text \<open>The sample \<open>newData\<close> that \<open>handleMotion\<close> builds from an event at time \<open>now\<close>.\<close>

definition newData :: "DeviceMotionEvent \<Rightarrow> int \<Rightarrow> SensorData" where
  "newData event now =
     (case or_zeros (accelerationIncludingGravity event) of (x, y, z) \<Rightarrow>
      case or_zeros (rotationRate event) of (alpha, beta, gamma) \<Rightarrow>
        \<lparr>sd_x = or_zero x, sd_y = or_zero y, sd_z = or_zero z,
         sd_alpha = or_zero alpha, sd_beta = or_zero beta, sd_gamma = or_zero gamma,
         sd_timestamp = now\<rparr>)"

text \<open>
  The buffer update of \<open>handleMotion\<close>: \<open>push\<close>, then one \<open>shift\<close> when the length exceeds
  \<open>MAX_BUFFER_SIZE\<close>.
\<close>

definition push_sample :: "SensorData list \<Rightarrow> SensorData \<Rightarrow> SensorData list" where
  "push_sample buf d =
     (let pushed = buf @ [d]
      in if length pushed > MAX_BUFFER_SIZE then tl pushed else pushed)"

text \<open>Appending a sequence of samples to a buffer, one \<open>push_sample\<close> each.\<close>

definition append_all :: "SensorData list \<Rightarrow> SensorData list \<Rightarrow> SensorData list" where
  "append_all buf samples = foldl push_sample buf samples"

text \<open>\<open>arr.reduce((a, b) => a + b, 0)\<close>.\<close>

definition reduce_add :: "jsnum list \<Rightarrow> jsnum" where
  "reduce_add arr = foldl (\<lambda>a b. fadd a b) (Finite 0) arr"

text \<open>
  The two local helpers of \<open>processBuffer\<close>, on arrays of numbers. The divisor is
  \<open>arr.length\<close>; on an empty array both helpers divide 0 by 0, which is NaN.
\<close>

definition mean :: "jsnum list \<Rightarrow> jsnum" where
  "mean arr = fdiv (reduce_add arr) (Finite (real (length arr)))"

definition std :: "jsnum list \<Rightarrow> jsnum \<Rightarrow> jsnum" where
  "std arr meanVal =
     fsqrt (fdiv (reduce_add (map (\<lambda>x. fpow2 (fsub x meanVal)) arr))
              (Finite (real (length arr))))"

definition processBuffer :: "SensorData list \<Rightarrow> ProcessedFeatures option" where
  "processBuffer data =
     (if length data < 40 then None
      else
        let accX = map (\<lambda>d. Finite (sd_x d)) data;
            accY = map (\<lambda>d. Finite (sd_y d)) data;
            accZ = map (\<lambda>d. Finite (sd_z d)) data;
            gyroA = map (\<lambda>d. Finite (sd_alpha d)) data;
            gyroB = map (\<lambda>d. Finite (sd_beta d)) data;
            gyroG = map (\<lambda>d. Finite (sd_gamma d)) data;
            xMean = mean accX;
            yMean = mean accY;
            zMean = mean accZ;
            aMean = mean gyroA;
            bMean = mean gyroB;
            gMean = mean gyroG
        in Some \<lparr>acc_x_mean = xMean, acc_x_std = std accX xMean,
                 acc_y_mean = yMean, acc_y_std = std accY yMean,
                 acc_z_mean = zMean, acc_z_std = std accZ zMean,
                 gyro_alpha_mean = aMean, gyro_alpha_std = std gyroA aMean,
                 gyro_beta_mean = bMean, gyro_beta_std = std gyroB bMean,
                 gyro_gamma_mean = gMean, gyro_gamma_std = std gyroG gMean\<rparr>)"

text \<open>
  The six channel selectors, the array of one channel's values in a window, and a feature
  vector none of whose twelve entries is NaN.
\<close>

definition channels :: "(SensorData \<Rightarrow> real) list" where
  "channels = [sd_x, sd_y, sd_z, sd_alpha, sd_beta, sd_gamma]"

definition channel :: "(SensorData \<Rightarrow> real) \<Rightarrow> SensorData list \<Rightarrow> jsnum list" where
  "channel ch data = map (\<lambda>d. Finite (ch d)) data"

definition numericFeatures :: "ProcessedFeatures \<Rightarrow> bool" where
  "numericFeatures f =
     (is_number (acc_x_mean f) \<and> is_number (acc_x_std f) \<and>
      is_number (acc_y_mean f) \<and> is_number (acc_y_std f) \<and>
      is_number (acc_z_mean f) \<and> is_number (acc_z_std f) \<and>
      is_number (gyro_alpha_mean f) \<and> is_number (gyro_alpha_std f) \<and>
      is_number (gyro_beta_mean f) \<and> is_number (gyro_beta_std f) \<and>
      is_number (gyro_gamma_mean f) \<and> is_number (gyro_gamma_std f))"

section \<open>Classification service (services/aiService.ts)\<close>

record ProcessEnv =
  AI_API_KEY :: "string option"
  API_KEY :: "string option"

text \<open>\<open>!v\<close> for a value that is a string or undefined/null.\<close>

definition falsy :: "string option \<Rightarrow> bool" where
  "falsy v = (case v of None \<Rightarrow> True | Some s \<Rightarrow> s = [])"

text \<open>The condition of the API-key guard.\<close>

definition keyMissing :: "ProcessEnv \<Rightarrow> bool" where
  "keyMissing env = (falsy (AI_API_KEY env) \<and> falsy (API_KEY env))"

text \<open>
  The request sent to the backend. Of the prompt text only the two parts that vary are kept:
  the value that the template prints after \<open>Previous Activity:\<close> and the features (which
  the source prints with \<open>toFixed(2)\<close>).
\<close>

record Prompt =
  previousActivityLine :: json
  sensorFeatures :: ProcessedFeatures

text \<open>\<open>previousActivity || "None / Initializing"\<close>.\<close>

definition build_prompt :: "ProcessedFeatures \<Rightarrow> json option \<Rightarrow> Prompt" where
  "build_prompt features previousActivity =
     \<lparr>previousActivityLine =
        (case previousActivity of
           None \<Rightarrow> JStr ''None / Initializing''
         | Some v \<Rightarrow> if truthy v then v else JStr ''None / Initializing''),
      sensorFeatures = features\<rparr>"

text \<open>A prompt that carries the no-prior-context marker.\<close>

definition unbiased :: "Prompt \<Rightarrow> bool" where
  "unbiased p = (previousActivityLine p = JStr ''None / Initializing'')"

text \<open>
  What can come back from \<open>ai.models.generateContent\<close> and the two statements after it: the
  call rejects, \<open>response.text\<close> is empty or undefined, \<open>JSON.parse\<close> throws, or
  \<open>JSON.parse\<close> returns a value. The source asserts that this value has the four fields
  of the response schema, and does not check it.
\<close>

datatype BackendOutcome = CallRejected | EmptyText | InvalidJson | Parsed json

text \<open>The outcomes on which the \<open>try\<close> block throws.\<close>

fun failedCall :: "BackendOutcome \<Rightarrow> bool" where
  "failedCall (Parsed result) = False"
| "failedCall outcome = True"

datatype error = ApiKeyMissing

text \<open>The object returned by the \<open>catch\<close> block; the glyph is U+2753 in UTF-8.\<close>

definition degraded :: "int \<Rightarrow> ActivityPrediction" where
  "degraded now =
     \<lparr>activity = Some (JStr ''Unknown''), confidence = Some (JNum (Finite 0)),
      emoji = Some (JStr [CHR 0xE2, CHR 0x9D, CHR 0x93]),
      reasoning = Some (JStr ''Could not connect to AI service.''),
      timestamp = now\<rparr>"

text \<open>
  The \<open>try\<close> block: \<open>Inl ()\<close> is a throw inside it. On a parsed value it returns
  \<open>{...result, timestamp: Date.now()}\<close>, whatever the value is.
\<close>

fun try_body :: "BackendOutcome \<Rightarrow> int \<Rightarrow> unit + ActivityPrediction" where
  "try_body CallRejected now = Inl ()"
| "try_body EmptyText now = Inl ()"
| "try_body InvalidJson now = Inl ()"
| "try_body (Parsed result) now =
     Inr \<lparr>activity = spread_prop result ''activity'',
          confidence = spread_prop result ''confidence'',
          emoji = spread_prop result ''emoji'',
          reasoning = spread_prop result ''reasoning'',
          timestamp = now\<rparr>"

text \<open>\<open>try\<close> with its \<open>catch\<close>: what the promise of \<open>classifyActivity\<close> resolves to.\<close>

definition settle :: "BackendOutcome \<Rightarrow> int \<Rightarrow> ActivityPrediction" where
  "settle outcome now = (case try_body outcome now of Inl _ \<Rightarrow> degraded now | Inr p \<Rightarrow> p)"

text \<open>
  The part of \<open>classifyActivity\<close> before the backend call: the API-key guard, which throws
  outside the \<open>try\<close> block, and the prompt. The client constructor between the two is taken
  not to throw when a key is given.
\<close>

definition issue :: "ProcessEnv \<Rightarrow> ProcessedFeatures \<Rightarrow> json option \<Rightarrow> error + Prompt" where
  "issue env features previousActivity =
     (if falsy (AI_API_KEY env) \<and> falsy (API_KEY env) then Inl ApiKeyMissing
      else Inr (build_prompt features previousActivity))"


section \<open>Lifecycle and analysis loop (App.tsx with useSensors)\<close>

text \<open>
  The state shared by the handlers: the hook's \<open>isRecording\<close>, \<open>bufferRef\<close> and
  \<open>currentData\<close>, the component's \<open>appState\<close>, \<open>prediction\<close> and \<open>lastPredictionRef\<close>
  (declared a string or null, at run time whatever \<open>result.activity\<close> was),
  whether the interval created by the analysis effect is live, and the prompts of the
  \<open>classifyActivity\<close> calls whose promise is still pending. Everything runs on one event
  loop: a handler runs to its end or to its \<open>await\<close>, and the continuation after the
  \<open>await\<close> is one more event. The render and the effects that follow a handler are taken to
  complete before the next event.
\<close>

record App =
  isRecording :: bool
  bufferRef :: "SensorData list"
  currentData :: SensorData
  appState :: AppState
  prediction :: "ActivityPrediction option"
  lastPredictionRef :: "json option"
  intervalLive :: bool
  inFlight :: "Prompt list"

definition initialApp :: App where
  "initialApp =
     \<lparr>isRecording = False, bufferRef = [],
      currentData = \<lparr>sd_x = 0, sd_y = 0, sd_z = 0, sd_alpha = 0, sd_beta = 0, sd_gamma = 0,
                     sd_timestamp = 0\<rparr>,
      appState = IDLE, prediction = None, lastPredictionRef = None,
      intervalLive = False, inFlight = []\<rparr>"

definition handleMotion :: "App \<Rightarrow> DeviceMotionEvent \<Rightarrow> int \<Rightarrow> App" where
  "handleMotion s event now =
     (let d = newData event now
      in s\<lparr>currentData := d,
           bufferRef := (if isRecording s then push_sample (bufferRef s) d else bufferRef s)\<rparr>)"

definition startRecording :: "App \<Rightarrow> App" where
  "startRecording s = s\<lparr>isRecording := True\<rparr>"

definition stopRecording :: "App \<Rightarrow> App" where
  "stopRecording s = s\<lparr>isRecording := False, bufferRef := []\<rparr>"

text \<open>
  The analysis effect, run after a render in which \<open>isRecording\<close> changed: its cleanup clears
  the old interval, and a new one is created when \<open>isRecording\<close> holds.
\<close>

definition analysisEffect :: "App \<Rightarrow> App" where
  "analysisEffect s = s\<lparr>intervalLive := isRecording s\<rparr>"

text \<open>\<open>handleStart\<close> after its permission request, followed by the render's effect.\<close>

definition handleStart :: "App \<Rightarrow> App" where
  "handleStart s =
     analysisEffect
       (startRecording (s\<lparr>prediction := None, lastPredictionRef := None, appState := RECORDING\<rparr>))"

definition handleStop :: "App \<Rightarrow> App" where
  "handleStop s =
     analysisEffect
       ((stopRecording s)\<lparr>appState := IDLE, lastPredictionRef := None, intervalLive := False\<rparr>)"

text \<open>\<open>lastPredictionRef.current || undefined\<close>.\<close>

definition or_undefined :: "json option \<Rightarrow> json option" where
  "or_undefined v = (case v of None \<Rightarrow> None | Some j \<Rightarrow> if truthy j then Some j else None)"

text \<open>
  The interval callback up to its \<open>await\<close>. A cleared interval does not fire. Without
  features nothing happens; when \<open>classifyActivity\<close> throws, the callback's promise rejects
  and nothing else runs; otherwise one more call is pending.
\<close>

definition tickFire :: "ProcessEnv \<Rightarrow> App \<Rightarrow> App" where
  "tickFire env s =
     (if \<not> intervalLive s then s
      else case processBuffer (bufferRef s) of
        None \<Rightarrow> s
      | Some features \<Rightarrow>
          (case issue env features (or_undefined (lastPredictionRef s)) of
             Inl e \<Rightarrow> s
           | Inr prompt \<Rightarrow> s\<lparr>inFlight := inFlight s @ [prompt]\<rparr>))"

text \<open>
  The rest of the callback, run when the pending call number \<open>i\<close> settles:
  \<open>setPrediction(result); lastPredictionRef.current = result.activity\<close>.
\<close>

definition tickResume :: "App \<Rightarrow> nat \<Rightarrow> BackendOutcome \<Rightarrow> int \<Rightarrow> App" where
  "tickResume s i outcome now =
     (if i < length (inFlight s) then
        let result = settle outcome now
        in s\<lparr>prediction := Some result,
             lastPredictionRef := activity result,
             inFlight := take i (inFlight s) @ drop (Suc i) (inFlight s)\<rparr>
      else s)"


text \<open>
  The events of a session: the two buttons, a motion event with its time, the interval coming
  due, and the settling of pending call \<open>i\<close> with an outcome at a time.
\<close>

datatype Event =
    Start
  | Stop
  | Motion DeviceMotionEvent int
  | Tick
  | Response nat BackendOutcome int

fun isResponse :: "Event \<Rightarrow> bool" where
  "isResponse (Response i outcome now) = True"
| "isResponse e = False"

fun step :: "ProcessEnv \<Rightarrow> App \<Rightarrow> Event \<Rightarrow> App" where
  "step env s Start = handleStart s"
| "step env s Stop = handleStop s"
| "step env s (Motion event now) = handleMotion s event now"
| "step env s Tick = tickFire env s"
| "step env s (Response i outcome now) = tickResume s i outcome now"

definition run :: "ProcessEnv \<Rightarrow> App \<Rightarrow> Event list \<Rightarrow> App" where
  "run env s events = foldl (step env) s events"

text \<open>A sequence of motion events, and the samples that \<open>handleMotion\<close> builds from it.\<close>

definition motions :: "(DeviceMotionEvent \<times> int) list \<Rightarrow> Event list" where
  "motions evs = map (\<lambda>(event, now). Motion event now) evs"

definition samples :: "(DeviceMotionEvent \<times> int) list \<Rightarrow> SensorData list" where
  "samples evs = map (\<lambda>(event, now). newData event now) evs"

section \<open>Reference formulas\<close>








section \<open>Concrete sessions\<close>

text \<open>Environments with and without an API key; the second has an empty \<open>API_KEY\<close>.\<close>

definition keyedEnv :: ProcessEnv where
  "keyedEnv = \<lparr>AI_API_KEY = Some ''key'', API_KEY = None\<rparr>"


text \<open>
  A backend that always answers \<open>walking\<close>, one that always rejects, and one whose
  response text is \<open>null\<close>.
\<close>

definition walking :: json where
  "walking =
     JObj [(''activity'', JStr ''Walking''), (''confidence'', JNum (Finite 90)),
           (''emoji'', JStr ''w''), (''reasoning'', JStr ''steady gait'')]"




text \<open>A sample, an event without readings, and sequences of such events.\<close>

definition sampleA :: SensorData where
  "sampleA = \<lparr>sd_x = 1, sd_y = 2, sd_z = 3, sd_alpha = 4, sd_beta = 5, sd_gamma = 6,
              sd_timestamp = 7\<rparr>"

definition stillEvent :: DeviceMotionEvent where
  "stillEvent = \<lparr>accelerationIncludingGravity = None, rotationRate = None\<rparr>"

definition timedEvents :: "nat \<Rightarrow> (DeviceMotionEvent \<times> int) list" where
  "timedEvents n = map (\<lambda>i. (stillEvent, int i)) [0..<n]"

definition still39 :: "(DeviceMotionEvent \<times> int) list" where
  "still39 = replicate 39 (stillEvent, 0)"

definition idleEvents :: "(DeviceMotionEvent \<times> int) list" where
  "idleEvents = [(stillEvent, 8), (stillEvent, 9)]"









text \<open>A start followed by forty samples: enough for the first features.\<close>

definition warmUp :: "Event list" where
  "warmUp = Start # replicate 40 (Motion stillEvent 0)"

text \<open>Forty samples and then the first tick of a session.\<close>

definition firstTick :: "Event list" where
  "firstTick = replicate 40 (Motion stillEvent 6) @ [Tick]"

text \<open>A session that has just gathered its first forty samples.\<close>

definition warmSession :: App where
  "warmSession = run keyedEnv initialApp warmUp"

text \<open>The same session after one tick that the backend answered with \<open>walking\<close>.\<close>

definition walkingSession :: App where
  "walkingSession = run keyedEnv warmSession [Tick, Response 0 (Parsed walking) 1]"

text \<open>The warm session stopped while the call of its first tick is pending.\<close>

definition stoppedSession :: App where
  "stoppedSession = run keyedEnv warmSession [Tick, Stop]"

text \<open>
  A second session started after that stop: the pending call of the first session settles
  after the start, then forty samples arrive. No tick of the second session has fired yet.
\<close>

definition restartedSession :: App where
  "restartedSession =
     run keyedEnv stoppedSession
       (Start # Response 0 (Parsed walking) 5 # replicate 40 (Motion stillEvent 6))"

section \<open>Properties\<close>

subsection \<open>The sample buffer\<close>

lemma push_sample_drop:
  assumes "length buf \<le> MAX_BUFFER_SIZE"
  shows "push_sample buf d = drop (Suc (length buf) - MAX_BUFFER_SIZE) (buf @ [d])"
proof (cases "length buf = MAX_BUFFER_SIZE")
  case True
  then have "buf \<noteq> []" by (auto simp: MAX_BUFFER_SIZE_def)
  with True show ?thesis
    by (cases buf) (simp_all add: push_sample_def Let_def)
next
  case False
  with assms have "length buf < MAX_BUFFER_SIZE" by simp
  then show ?thesis by (simp add: push_sample_def Let_def)
qed

lemma append_all_snoc: "append_all buf (xs @ [x]) = push_sample (append_all buf xs) x"
  by (simp add: append_all_def)

lemma append_all_drop:
  assumes "length buf \<le> MAX_BUFFER_SIZE"
  shows "append_all buf xs = drop (length buf + length xs - MAX_BUFFER_SIZE) (buf @ xs)"
proof (induction xs rule: rev_induct)
  case Nil
  from assms show ?case by (simp add: append_all_def)
next
  case (snoc x xs)
  define ys where "ys = buf @ xs"
  define k where "k = length ys - MAX_BUFFER_SIZE"
  have IH: "append_all buf xs = drop k ys"
    by (simp add: snoc.IH ys_def k_def)
  have len: "length (drop k ys) = min (length ys) MAX_BUFFER_SIZE"
    by (simp add: k_def)
  have "push_sample (drop k ys) x
          = drop (Suc (length (drop k ys)) - MAX_BUFFER_SIZE) (drop k ys @ [x])"
    by (rule push_sample_drop) (simp add: k_def)
  also have "\<dots> = drop (Suc (length ys) - MAX_BUFFER_SIZE) (ys @ [x])"
  proof (cases "length ys < MAX_BUFFER_SIZE")
    case True
    then show ?thesis by (simp add: k_def)
  next
    case False
    then have ge: "MAX_BUFFER_SIZE \<le> length ys" by simp
    then have "length (drop k ys) = MAX_BUFFER_SIZE" by (simp add: k_def)
    then have "drop (Suc (length (drop k ys)) - MAX_BUFFER_SIZE) (drop k ys @ [x])
                 = drop (Suc 0) (drop k ys @ [x])"
      by simp
    also have "\<dots> = drop (Suc 0) (drop k ys) @ [x]"
      using \<open>length (drop k ys) = MAX_BUFFER_SIZE\<close> by (simp add: MAX_BUFFER_SIZE_def)
    also have "\<dots> = drop (Suc k) ys @ [x]"
      by simp
    also have "\<dots> = drop (Suc k) (ys @ [x])"
      using ge by (simp add: k_def MAX_BUFFER_SIZE_def)
    also have "Suc k = Suc (length ys) - MAX_BUFFER_SIZE"
      using ge by (simp add: k_def Suc_diff_le)
    finally show ?thesis .
  qed
  finally have "push_sample (append_all buf xs) x
                  = drop (Suc (length ys) - MAX_BUFFER_SIZE) (ys @ [x])"
    by (simp only: IH)
  then show ?case by (simp add: append_all_snoc ys_def)
qed

lemma append_all_most_recent:
  "append_all [] xs = drop (length xs - MAX_BUFFER_SIZE) xs"
  using append_all_drop [of "[]" xs] by simp

subsection \<open>Runs of motion events\<close>

lemma run_snoc: "run env s (events @ [e]) = step env (run env s events) e"
  by (simp add: run_def)

lemma run_append: "run env s (es @ fs) = run env (run env s es) fs"
  by (simp add: run_def)

lemma run_Cons: "run env s (e # es) = run env (step env s e) es"
  by (simp add: run_def)

lemma run_Nil: "run env s [] = s"
  by (simp add: run_def)

lemma motions_snoc: "motions (evs @ [(event, now)]) = motions evs @ [Motion event now]"
  by (simp add: motions_def)

lemma samples_snoc: "samples (evs @ [(event, now)]) = samples evs @ [newData event now]"
  by (simp add: samples_def)

lemma run_motions_frame:
  "isRecording (run env s (motions evs)) = isRecording s \<and>
   prediction (run env s (motions evs)) = prediction s \<and>
   lastPredictionRef (run env s (motions evs)) = lastPredictionRef s \<and>
   intervalLive (run env s (motions evs)) = intervalLive s \<and>
   inFlight (run env s (motions evs)) = inFlight s \<and>
   appState (run env s (motions evs)) = appState s"
proof (induction evs rule: rev_induct)
  case Nil
  show ?case by (simp add: motions_def run_Nil)
next
  case (snoc ev evs)
  obtain event now where ev: "ev = (event, now)" by (cases ev)
  from snoc show ?case
    by (simp add: ev motions_snoc run_snoc handleMotion_def Let_def)
qed

lemma run_motions_buffer:
  assumes "isRecording s"
  shows "bufferRef (run env s (motions evs)) = append_all (bufferRef s) (samples evs)"
proof (induction evs rule: rev_induct)
  case Nil
  show ?case by (simp add: motions_def samples_def run_Nil append_all_def)
next
  case (snoc ev evs)
  obtain event now where ev: "ev = (event, now)" by (cases ev)
  have rec: "isRecording (run env s (motions evs))"
    using assms run_motions_frame [of env s evs] by simp
  show ?case
    by (simp add: ev motions_snoc samples_snoc run_snoc handleMotion_def Let_def rec
        snoc.IH append_all_snoc)
qed

lemma run_motions_idle:
  assumes "\<not> isRecording s"
  shows "bufferRef (run env s (motions evs)) = bufferRef s"
proof (induction evs rule: rev_induct)
  case Nil
  show ?case by (simp add: motions_def run_Nil)
next
  case (snoc ev evs)
  obtain event now where ev: "ev = (event, now)" by (cases ev)
  have rec: "\<not> isRecording (run env s (motions evs))"
    using assms run_motions_frame [of env s evs] by simp
  show ?case
    by (simp add: ev motions_snoc run_snoc handleMotion_def Let_def rec snoc.IH)
qed

lemma length_samples: "length (samples evs) = length evs"
  by (simp add: samples_def)

text \<open>
  Claim C2. In a recording session that starts from an empty buffer, after any sequence of
  \<open>N\<close> motion events the buffer has \<open>min N 100\<close> samples, and they are the most recent
  \<open>min N 100\<close> samples of the sequence in arrival order.
\<close>

theorem buffer_holds_most_recent:
  assumes "isRecording s" and "bufferRef s = []"
  shows "MAX_BUFFER_SIZE = 100 \<and>
         length (bufferRef (run env s (motions evs))) = min (length evs) MAX_BUFFER_SIZE \<and>
         bufferRef (run env s (motions evs))
           = drop (length evs - min (length evs) MAX_BUFFER_SIZE) (samples evs)"
proof -
  have "bufferRef (run env s (motions evs)) = drop (length evs - MAX_BUFFER_SIZE) (samples evs)"
    using assms by (simp add: run_motions_buffer append_all_most_recent length_samples)
  moreover have "length evs - min (length evs) MAX_BUFFER_SIZE = length evs - MAX_BUFFER_SIZE"
    by simp
  ultimately show ?thesis
    by (simp add: length_samples MAX_BUFFER_SIZE_def)
qed

lemma handleStart_fields:
  "isRecording (handleStart s)" "bufferRef (handleStart s) = bufferRef s"
  "prediction (handleStart s) = None" "lastPredictionRef (handleStart s) = None"
  "intervalLive (handleStart s)" "inFlight (handleStart s) = inFlight s"
  by (simp_all add: handleStart_def startRecording_def analysisEffect_def)

lemma handleStop_fields:
  "\<not> isRecording (handleStop s)" "bufferRef (handleStop s) = []"
  "prediction (handleStop s) = prediction s" "lastPredictionRef (handleStop s) = None"
  "\<not> intervalLive (handleStop s)" "inFlight (handleStop s) = inFlight s"
  by (simp_all add: handleStop_def stopRecording_def analysisEffect_def)

lemma length_timedEvents: "length (timedEvents n) = n"
  by (simp add: timedEvents_def)

text \<open>A session of 101 events with distinct time stamps: the first sample has been evicted.\<close>

theorem buffer_holds_most_recent_witness:
  "isRecording (handleStart initialApp) \<and> bufferRef (handleStart initialApp) = [] \<and>
   length (bufferRef (run keyedEnv (handleStart initialApp) (motions (timedEvents 101)))) = 100 \<and>
   bufferRef (run keyedEnv (handleStart initialApp) (motions (timedEvents 101)))
     = drop 1 (samples (timedEvents 101))"
proof -
  have a: "isRecording (handleStart initialApp)"
    by (simp add: handleStart_fields)
  have b: "bufferRef (handleStart initialApp) = []"
    by (simp add: handleStart_fields initialApp_def)
  show ?thesis
    using a b buffer_holds_most_recent [OF a b, of keyedEnv "timedEvents 101"]
    by (simp add: length_timedEvents length_samples MAX_BUFFER_SIZE_def)
qed

subsection \<open>Rounding to double\<close>

lemma rhe_of_int: "rhe (of_int k) = k"
  by (simp add: rhe_def)

lemma rhe_nonneg: "0 \<le> y \<Longrightarrow> 0 \<le> rhe y"
  by (auto simp: rhe_def Let_def)


lemma ulp_pos: "0 < ulp x"
  by (simp add: ulp_def)

lemma nearest_0: "nearest 0 = 0"
  by (simp add: nearest_def)

lemma nearest_nonneg: "0 \<le> x \<Longrightarrow> 0 \<le> nearest x"
  using ulp_pos [of x] by (simp add: nearest_def rhe_nonneg)

lemma rnd_0: "rnd 0 = Finite 0"
  by (simp add: rnd_def nearest_0)

lemma is_number_rnd: "is_number (rnd x)"
  by (simp add: rnd_def Let_def)

lemma nonneg_rnd: "0 \<le> x \<Longrightarrow> nonneg (rnd x)"
  using nearest_nonneg [of x] by (simp add: rnd_def Let_def)

lemma nonneg_is_number: "nonneg a \<Longrightarrow> is_number a"
  by (cases a) simp_all


lemma expo_le:
  assumes "x \<noteq> 0" and "\<bar>x\<bar> < 2 powr (of_int b + 1)" and "- 1022 \<le> b"
  shows "expo x \<le> b"
proof -
  have "log 2 \<bar>x\<bar> < of_int b + 1"
    using assms(1,2) by (simp add: log_less_iff)
  then have "\<lfloor>log 2 \<bar>x\<bar>\<rfloor> \<le> b"
    by (simp add: floor_le_iff)
  with assms(3) show ?thesis by (simp add: expo_def)
qed


text \<open>A value of at most 53 significant bits, scaled within range, is a double.\<close>

lemma nearest_exact:
  assumes "\<bar>m\<bar> < 2 ^ 53" and "- 1074 \<le> c"
  shows "nearest (of_int m * 2 powr (of_int c)) = of_int m * 2 powr (of_int c)"
proof (cases "m = 0")
  case True
  then show ?thesis by (simp add: nearest_0)
next
  case False
  let ?x = "of_int m * 2 powr (of_int c) :: real"
  have x0: "?x \<noteq> 0" using False by simp
  have "\<bar>of_int m :: real\<bar> < 2 ^ 53"
    using assms(1) by (metis of_int_abs of_int_less_iff of_int_numeral of_int_power)
  then have "\<bar>?x\<bar> < 2 ^ 53 * 2 powr (of_int c)"
    by (simp add: abs_mult mult_strict_right_mono)
  also have "\<dots> = 2 powr (of_int (52 + c) + 1)"
    by (simp add: powr_add)
  finally have le: "expo ?x \<le> 52 + c"
    using x0 assms(2) by (intro expo_le) simp_all
  define k where "k = nat (52 + c - expo ?x)"
  have k: "of_int c - (of_int (expo ?x) - 52) = (of_int (int k) :: real)"
    using le by (simp add: k_def)
  have "?x / ulp ?x = of_int m * 2 powr (of_int c - (of_int (expo ?x) - 52))"
    by (simp add: ulp_def powr_diff)
  also have "\<dots> = of_int (m * 2 ^ k)"
    unfolding k by (simp add: powr_realpow)
  finally have q: "?x / ulp ?x = of_int (m * 2 ^ k)" .
  have "nearest ?x = of_int (m * 2 ^ k) * ulp ?x"
    using x0 by (simp only: nearest_def q rhe_of_int if_False)
  also have "\<dots> = ?x / ulp ?x * ulp ?x"
    by (simp only: q)
  also have "\<dots> = ?x"
    using ulp_pos [of ?x] by simp
  finally show ?thesis .
qed

lemma rnd_exact:
  assumes "\<bar>m\<bar> < 2 ^ 53" and "- 1074 \<le> c" and "c \<le> 971"
  shows "rnd (of_int m * 2 powr (of_int c)) = Finite (of_int m * 2 powr (of_int c))"
proof -
  let ?x = "of_int m * 2 powr (of_int c) :: real"
  have m: "\<bar>of_int m :: real\<bar> < 2 ^ 53"
    using assms(1) by (metis of_int_abs of_int_less_iff of_int_numeral of_int_power)
  have "(2::real) powr (of_int c) \<le> 2 powr 971"
    using assms(3) by (intro powr_mono) auto
  also have "(2::real) powr 971 = 2 ^ 971"
    by (rule powr_numeral) simp
  finally have c: "(2::real) powr (of_int c) \<le> 2 ^ 971" .
  have "\<bar>?x\<bar> = \<bar>of_int m\<bar> * 2 powr (of_int c)"
    by (simp add: abs_mult)
  also have "\<dots> < 2 ^ 53 * 2 ^ 971"
    using m c by (intro mult_less_le_imp_less) simp_all
  also have "(2::real) ^ 53 * 2 ^ 971 = 2 ^ 1024"
    by (simp flip: power_add)
  finally have "\<bar>?x\<bar> < 2 ^ 1024" .
  then show ?thesis
    using assms(1,2) by (simp add: rnd_def nearest_exact Let_def abs_less_iff not_le)
qed

lemma is_double_of_int: "\<bar>n\<bar> < 2 ^ 53 \<Longrightarrow> is_double (of_int n)"
  using rnd_exact [of n 0] by (simp add: is_double_def)







subsection \<open>Sums, means and deviations are numbers\<close>

lemma fadd_Finite_number: "is_number a \<Longrightarrow> is_number (fadd a (Finite x))"
  by (cases a) (simp_all add: is_number_rnd)

lemma foldl_fadd_number:
  "is_number a \<Longrightarrow> is_number (foldl (\<lambda>a b. fadd a b) a (map Finite vs))"
  by (induction vs arbitrary: a) (simp_all add: fadd_Finite_number)

lemma fadd_nonneg: "nonneg a \<Longrightarrow> nonneg b \<Longrightarrow> nonneg (fadd a b)"
  by (cases a; cases b) (simp_all add: nonneg_rnd)

lemma foldl_fadd_nonneg:
  "nonneg a \<Longrightarrow> list_all nonneg xs \<Longrightarrow> nonneg (foldl (\<lambda>a b. fadd a b) a xs)"
  by (induction xs arbitrary: a) (simp_all add: fadd_nonneg)

lemma fdiv_number: "is_number a \<Longrightarrow> 0 < n \<Longrightarrow> is_number (fdiv a (Finite n))"
  by (cases a) (simp_all add: is_number_rnd)

lemma fdiv_nonneg: "nonneg a \<Longrightarrow> 0 < n \<Longrightarrow> nonneg (fdiv a (Finite n))"
  by (cases a) (simp_all add: nonneg_rnd)

lemma fsub_number: "is_number m \<Longrightarrow> is_number (fsub (Finite x) m)"
  by (cases m) (simp_all add: fsub_def is_number_rnd)

lemma fpow2_nonneg: "is_number a \<Longrightarrow> nonneg (fpow2 a)"
  by (cases a) (simp_all add: nonneg_rnd)

lemma fsqrt_number: "nonneg a \<Longrightarrow> is_number (fsqrt a)"
  by (cases a) (simp_all add: is_number_rnd)

lemma mean_number:
  assumes "vs \<noteq> []"
  shows "is_number (mean (map Finite vs))"
proof -
  have "is_number (reduce_add (map Finite vs))"
    unfolding reduce_add_def by (rule foldl_fadd_number) simp
  moreover have "0 < real (length (map Finite vs))"
    using assms by simp
  ultimately show ?thesis
    unfolding mean_def by (rule fdiv_number)
qed

lemma std_number:
  assumes "vs \<noteq> []" and "is_number m"
  shows "is_number (std (map Finite vs) m)"
proof -
  have "list_all nonneg (map (\<lambda>x. fpow2 (fsub x m)) (map Finite vs))"
    using assms(2) by (simp add: list_all_iff fpow2_nonneg fsub_number)
  then have "nonneg (reduce_add (map (\<lambda>x. fpow2 (fsub x m)) (map Finite vs)))"
    unfolding reduce_add_def by (intro foldl_fadd_nonneg) simp_all
  moreover have "0 < real (length (map Finite vs))"
    using assms(1) by simp
  ultimately have "nonneg (fdiv (reduce_add (map (\<lambda>x. fpow2 (fsub x m)) (map Finite vs)))
                             (Finite (real (length (map Finite vs)))))"
    by (rule fdiv_nonneg)
  then show ?thesis
    unfolding std_def by (rule fsqrt_number)
qed

lemma channel_number:
  assumes "data \<noteq> []"
  shows "is_number (mean (channel ch data))"
    and "is_number (std (channel ch data) (mean (channel ch data)))"
proof -
  have c: "channel ch data = map Finite (map ch data)"
    by (simp add: channel_def)
  from assms have ne: "map ch data \<noteq> []" by simp
  show "is_number (mean (channel ch data))"
    unfolding c using ne by (rule mean_number)
  then show "is_number (std (channel ch data) (mean (channel ch data)))"
    unfolding c using ne by (intro std_number)
qed

lemma single_sample_std:
  assumes "is_double v"
  shows "std [Finite v] (mean [Finite v]) = Finite 0"
proof -
  from assms have v: "rnd v = Finite v" by (simp add: is_double_def)
  have "mean [Finite v] = Finite v"
    by (simp add: mean_def reduce_add_def v)
  then show ?thesis
    by (simp add: std_def reduce_add_def fsub_def rnd_0)
qed

subsection \<open>Feature extraction\<close>

lemma processBuffer_short: "length data < 40 \<Longrightarrow> processBuffer data = None"
  by (simp add: processBuffer_def)

lemma processBuffer_long:
  assumes "40 \<le> length data"
  shows "\<exists>f. processBuffer data = Some f \<and> numericFeatures f"
proof -
  from assms have ne: "data \<noteq> []" by auto
  have "is_number (mean (map (\<lambda>d. Finite (ch d)) data))"
    and "is_number (std (map (\<lambda>d. Finite (ch d)) data) (mean (map (\<lambda>d. Finite (ch d)) data)))"
    for ch :: "SensorData \<Rightarrow> real"
    using channel_number [OF ne, of ch] by (simp_all add: channel_def)
  with assms show ?thesis
    by (simp add: processBuffer_def Let_def numericFeatures_def)
qed

lemma processBuffer_the:
  "40 \<le> length data \<Longrightarrow> processBuffer data = Some (the (processBuffer data))"
  using processBuffer_long [of data] by auto

text \<open>
  Claim C3. On fewer than 40 samples \<open>processBuffer\<close> returns null, on 40 or more it returns
  a feature vector of twelve numbers, none of them NaN; so a recording session that started
  from an empty buffer has no features after 39 motion events and has them after the 40th.
\<close>

theorem extraction_threshold:
  "(length data < 40 \<longrightarrow> processBuffer data = None) \<and>
   (40 \<le> length data \<longrightarrow> (\<exists>f. processBuffer data = Some f \<and> numericFeatures f)) \<and>
   (isRecording s \<and> bufferRef s = [] \<and> length evs = 39 \<longrightarrow>
      processBuffer (bufferRef (run env s (motions evs))) = None \<and>
      (\<exists>f. processBuffer (bufferRef (run env s (motions (evs @ [ev])))) = Some f
            \<and> numericFeatures f))"
proof (intro conjI impI)
  assume "length data < 40"
  then show "processBuffer data = None" by (rule processBuffer_short)
next
  assume "40 \<le> length data"
  then show "\<exists>f. processBuffer data = Some f \<and> numericFeatures f"
    by (rule processBuffer_long)
next
  assume a: "isRecording s \<and> bufferRef s = [] \<and> length evs = 39"
  then have "length (bufferRef (run env s (motions evs))) = 39"
    by (simp add: run_motions_buffer append_all_most_recent length_samples MAX_BUFFER_SIZE_def)
  then show "processBuffer (bufferRef (run env s (motions evs))) = None"
    by (simp add: processBuffer_short)
next
  assume a: "isRecording s \<and> bufferRef s = [] \<and> length evs = 39"
  then have "length (bufferRef (run env s (motions (evs @ [ev])))) = 40"
    by (simp add: run_motions_buffer append_all_most_recent length_samples MAX_BUFFER_SIZE_def)
  then show "\<exists>f. processBuffer (bufferRef (run env s (motions (evs @ [ev])))) = Some f
                 \<and> numericFeatures f"
    by (simp add: processBuffer_long)
qed

theorem extraction_threshold_witness:
  "length (replicate 39 sampleA) < 40 \<and> processBuffer (replicate 39 sampleA) = None \<and>
   40 \<le> length (replicate 40 sampleA) \<and>
   (\<exists>f. processBuffer (replicate 40 sampleA) = Some f \<and> numericFeatures f) \<and>
   isRecording (handleStart initialApp) \<and> bufferRef (handleStart initialApp) = [] \<and>
   length still39 = 39 \<and>
   processBuffer (bufferRef (run keyedEnv (handleStart initialApp) (motions still39))) = None \<and>
   (\<exists>f. processBuffer (bufferRef (run keyedEnv (handleStart initialApp)
                 (motions (still39 @ [(stillEvent, 1)])))) = Some f \<and> numericFeatures f)"
proof -
  have a: "isRecording (handleStart initialApp)" "bufferRef (handleStart initialApp) = []"
    by (simp_all add: handleStart_fields initialApp_def)
  have b: "length still39 = 39"
    by (simp add: still39_def)
  show ?thesis
    using a b
      extraction_threshold [of "replicate 39 sampleA" "handleStart initialApp" still39 keyedEnv
        "(stillEvent, 1)"]
      extraction_threshold [of "replicate 40 sampleA" "handleStart initialApp" still39 keyedEnv
        "(stillEvent, 1)"]
    by simp
qed

text \<open>
  Claim C9. On a window of at least one sample, whatever its finite channel values, the
  mean and the standard deviation of every channel are numbers, not NaN: the only divisor is
  the window's length, which is not zero, sums of finite values can overflow to one infinity
  but never meet the opposite one, and the square root is taken of a value that is zero or
  above. On a window of exactly one sample, every channel's deviation is 0.
\<close>

theorem std_defined_on_nonempty:
  "(data \<noteq> [] \<longrightarrow>
      list_all (\<lambda>ch. is_number (mean (channel ch data)) \<and>
                     is_number (std (channel ch data) (mean (channel ch data)))) channels) \<and>
   (list_all (\<lambda>ch. is_double (ch d)) channels \<longrightarrow>
      list_all (\<lambda>ch. std (channel ch [d]) (mean (channel ch [d])) = Finite 0) channels)"
proof (intro conjI impI)
  assume "data \<noteq> []"
  then show "list_all (\<lambda>ch. is_number (mean (channel ch data)) \<and>
                     is_number (std (channel ch data) (mean (channel ch data)))) channels"
    by (simp add: list_all_iff channel_number)
next
  assume "list_all (\<lambda>ch. is_double (ch d)) channels"
  then show "list_all (\<lambda>ch. std (channel ch [d]) (mean (channel ch [d])) = Finite 0) channels"
    by (simp add: list_all_iff channel_def single_sample_std)
qed

lemma sampleA_doubles: "list_all (\<lambda>ch. is_double (ch sampleA)) channels"
  using is_double_of_int [of 1] is_double_of_int [of 2] is_double_of_int [of 3]
    is_double_of_int [of 4] is_double_of_int [of 5] is_double_of_int [of 6]
  by (simp add: channels_def sampleA_def)

theorem std_defined_on_nonempty_witness:
  "[sampleA, newData stillEvent 0] \<noteq> [] \<and>
   list_all (\<lambda>ch. is_number (mean (channel ch [sampleA, newData stillEvent 0])) \<and>
                  is_number (std (channel ch [sampleA, newData stillEvent 0])
                               (mean (channel ch [sampleA, newData stillEvent 0])))) channels \<and>
   list_all (\<lambda>ch. is_double (ch sampleA)) channels \<and>
   list_all (\<lambda>ch. std (channel ch [sampleA]) (mean (channel ch [sampleA])) = Finite 0) channels"
  using std_defined_on_nonempty [of "[sampleA, newData stillEvent 0]" sampleA] sampleA_doubles
  by simp

subsection \<open>Exact and rounded feature values\<close>


































subsection \<open>The handlers, field by field\<close>

lemma replicate_Motion: "replicate n (Motion event now) = motions (replicate n (event, now))"
  by (simp add: motions_def)

lemma tickFire_fields:
  "isRecording (tickFire env s) = isRecording s"
  "bufferRef (tickFire env s) = bufferRef s"
  "prediction (tickFire env s) = prediction s"
  "lastPredictionRef (tickFire env s) = lastPredictionRef s"
  "intervalLive (tickFire env s) = intervalLive s"
  by (simp_all add: tickFire_def split: option.splits sum.splits)

lemma tickFire_cleared: "\<not> intervalLive s \<Longrightarrow> tickFire env s = s"
  by (simp add: tickFire_def)

lemma tickFire_issues:
  assumes "intervalLive s" and "40 \<le> length (bufferRef s)" and "\<not> keyMissing env"
  shows "inFlight (tickFire env s)
           = inFlight s @ [build_prompt (the (processBuffer (bufferRef s)))
                             (or_undefined (lastPredictionRef s))]"
proof -
  from processBuffer_long [OF assms(2)] obtain f where "processBuffer (bufferRef s) = Some f"
    by blast
  with assms(1,3) show ?thesis
    by (simp add: tickFire_def issue_def keyMissing_def)
qed

lemma tickResume_fields:
  "isRecording (tickResume s i outcome now) = isRecording s"
  "bufferRef (tickResume s i outcome now) = bufferRef s"
  "intervalLive (tickResume s i outcome now) = intervalLive s"
  by (simp_all add: tickResume_def Let_def)

lemma tickResume_commits:
  assumes "i < length (inFlight s)"
  shows "prediction (tickResume s i outcome now) = Some (settle outcome now)"
    and "lastPredictionRef (tickResume s i outcome now) = activity (settle outcome now)"
    and "inFlight (tickResume s i outcome now) = take i (inFlight s) @ drop (Suc i) (inFlight s)"
  using assms by (simp_all add: tickResume_def Let_def)

lemma settle_failed: "failedCall outcome \<Longrightarrow> settle outcome now = degraded now"
  by (cases outcome) (simp_all add: settle_def)

lemma settle_Parsed:
  "settle (Parsed result) now =
     \<lparr>activity = spread_prop result ''activity'',
      confidence = spread_prop result ''confidence'',
      emoji = spread_prop result ''emoji'',
      reasoning = spread_prop result ''reasoning'', timestamp = now\<rparr>"
  by (simp add: settle_def)

lemma run_warmUp:
  assumes "bufferRef s = []"
  shows "isRecording (run env s warmUp)" and "intervalLive (run env s warmUp)"
    and "length (bufferRef (run env s warmUp)) = 40"
    and "prediction (run env s warmUp) = None"
    and "lastPredictionRef (run env s warmUp) = None"
    and "inFlight (run env s warmUp) = inFlight s"
proof -
  let ?evs = "replicate 40 (stillEvent, 0::int)"
  have w: "run env s warmUp = run env (handleStart s) (motions ?evs)"
    by (simp add: warmUp_def run_Cons replicate_Motion)
  show "isRecording (run env s warmUp)" "intervalLive (run env s warmUp)"
    "prediction (run env s warmUp) = None" "lastPredictionRef (run env s warmUp) = None"
    "inFlight (run env s warmUp) = inFlight s"
    using run_motions_frame [of env "handleStart s" ?evs]
    by (simp_all add: w handleStart_fields)
  have "bufferRef (run env s warmUp) = append_all [] (samples ?evs)"
    using assms by (simp add: w run_motions_buffer handleStart_fields)
  then show "length (bufferRef (run env s warmUp)) = 40"
    by (simp add: append_all_most_recent length_samples MAX_BUFFER_SIZE_def)
qed

lemma keyedEnv_has_key: "\<not> keyMissing keyedEnv"
  by (simp add: keyMissing_def keyedEnv_def falsy_def)


lemma warmSession_fields:
  "isRecording warmSession" "intervalLive warmSession"
  "length (bufferRef warmSession) = 40" "prediction warmSession = None"
  "lastPredictionRef warmSession = None" "inFlight warmSession = []"
  using run_warmUp [of initialApp keyedEnv]
  by (simp_all add: warmSession_def initialApp_def)

lemma walkingSession_fields:
  "isRecording walkingSession" "intervalLive walkingSession"
  "length (bufferRef walkingSession) = 40"
  "lastPredictionRef walkingSession = Some (JStr ''Walking'')" "inFlight walkingSession = []"
proof -
  let ?t = "tickFire keyedEnv warmSession"
  have fl: "length (inFlight ?t) = 1"
    by (simp add: tickFire_issues warmSession_fields keyedEnv_has_key)
  have w: "walkingSession = tickResume ?t 0 (Parsed walking) 1"
    by (simp add: walkingSession_def run_Cons run_Nil)
  show "isRecording walkingSession" "intervalLive walkingSession"
    "length (bufferRef walkingSession) = 40"
    by (simp_all add: w tickResume_fields tickFire_fields warmSession_fields)
  show "lastPredictionRef walkingSession = Some (JStr ''Walking'')"
    using fl by (simp add: w tickResume_commits settle_Parsed walking_def)
  show "inFlight walkingSession = []"
    using fl by (simp add: w tickResume_commits)
qed

lemma stoppedSession_fields:
  "prediction stoppedSession = None" "lastPredictionRef stoppedSession = None"
  "length (inFlight stoppedSession) = 1" "\<not> intervalLive stoppedSession"
  "\<not> isRecording stoppedSession" "bufferRef stoppedSession = []"
proof -
  have w: "stoppedSession = handleStop (tickFire keyedEnv warmSession)"
    by (simp add: stoppedSession_def run_Cons run_Nil)
  show "prediction stoppedSession = None" "lastPredictionRef stoppedSession = None"
    "\<not> intervalLive stoppedSession" "\<not> isRecording stoppedSession"
    "bufferRef stoppedSession = []"
    by (simp_all add: w handleStop_fields tickFire_fields warmSession_fields)
  show "length (inFlight stoppedSession) = 1"
    by (simp add: w handleStop_fields tickFire_issues warmSession_fields keyedEnv_has_key)
qed

subsection \<open>A failed backend call\<close>




subsection \<open>What the classification call returns\<close>






subsection \<open>Responses that arrive after a stop\<close>

text \<open>
  Claim C5, as stated, fails: the session is stopped while the call of its first tick is
  pending; when that call settles, the Label and the context, both null after the stop, are
  set from the response.
\<close>

theorem late_response_is_committed:
  "prediction stoppedSession = None \<and> lastPredictionRef stoppedSession = None \<and>
   prediction (step keyedEnv stoppedSession (Response 0 (Parsed walking) 5))
     \<noteq> prediction stoppedSession \<and>
   lastPredictionRef (step keyedEnv stoppedSession (Response 0 (Parsed walking) 5))
     = Some (JStr ''Walking'')"
  by (simp add: stoppedSession_fields tickResume_commits settle_Parsed walking_def)

text \<open>
  Claim C5, amended. A stop clears the context, ends the ticks (a tick after it changes
  nothing) and leaves the pending calls pending; when a call issued before the stop settles
  afterwards, its result becomes the Label and its activity name the previous-activity
  context.
\<close>

theorem stop_keeps_pending_calls:
  assumes "i < length (inFlight s)"
  shows "lastPredictionRef (handleStop s) = None \<and>
         tickFire env (handleStop s) = handleStop s \<and>
         inFlight (handleStop s) = inFlight s \<and>
         prediction (tickResume (handleStop s) i outcome now) = Some (settle outcome now) \<and>
         lastPredictionRef (tickResume (handleStop s) i outcome now)
           = activity (settle outcome now)"
  using assms
  by (simp add: handleStop_fields tickFire_cleared tickResume_commits)

theorem stop_keeps_pending_calls_witness:
  "0 < length (inFlight (tickFire keyedEnv warmSession)) \<and>
   lastPredictionRef (handleStop (tickFire keyedEnv warmSession)) = None \<and>
   prediction (tickResume (handleStop (tickFire keyedEnv warmSession)) 0 InvalidJson 4)
     = Some (degraded 4) \<and>
   lastPredictionRef (tickResume (handleStop (tickFire keyedEnv warmSession)) 0 InvalidJson 4)
     = Some (JStr ''Unknown'')"
proof -
  have a: "0 < length (inFlight (tickFire keyedEnv warmSession))"
    by (simp add: tickFire_issues warmSession_fields keyedEnv_has_key)
  have b: "settle InvalidJson 4 = degraded 4" "activity (degraded 4) = Some (JStr ''Unknown'')"
    by (simp_all add: settle_failed degraded_def)
  show ?thesis
    using a stop_keeps_pending_calls [OF a, of keyedEnv InvalidJson 4]
    by (simp add: b)
qed

subsection \<open>Overlapping ticks\<close>




subsection \<open>Stop and restart\<close>

text \<open>
  Claim C8. A stop, in any state, leaves the buffer empty (length 0) and the previous-activity
  context null. After it, whatever motion events arrive while idle, a new start followed by
  fewer than 40 motion events has no features, and one followed by at least 40 has them.
\<close>

theorem stop_resets_session:
  "length (bufferRef (handleStop s)) = 0 \<and> lastPredictionRef (handleStop s) = None \<and>
   processBuffer (bufferRef (run env s (Stop # motions idle @ [Start]))) = None \<and>
   (length evs < 40 \<longrightarrow>
      processBuffer (bufferRef (run env s (Stop # motions idle @ Start # motions evs))) = None) \<and>
   (40 \<le> length evs \<longrightarrow>
      (\<exists>f. processBuffer (bufferRef (run env s (Stop # motions idle @ Start # motions evs)))
             = Some f))"
proof -
  let ?r = "handleStart (run env (handleStop s) (motions idle))"
  have empty: "bufferRef ?r = []"
    by (simp add: handleStart_fields run_motions_idle handleStop_fields)
  have rec: "isRecording ?r"
    by (simp add: handleStart_fields)
  have r0: "run env s (Stop # motions idle @ [Start]) = ?r"
    by (simp add: run_Cons run_append run_Nil)
  have r1: "run env s (Stop # motions idle @ Start # motions evs) = run env ?r (motions evs)"
    by (simp add: run_Cons run_append)
  have len: "length (bufferRef (run env ?r (motions evs))) = min (length evs) 100"
    using rec empty
    by (simp add: run_motions_buffer append_all_most_recent length_samples MAX_BUFFER_SIZE_def)
  have short: "processBuffer (bufferRef (run env ?r (motions evs))) = None"
    if "length evs < 40"
    using that len by (simp add: processBuffer_short)
  have long: "\<exists>f. processBuffer (bufferRef (run env ?r (motions evs))) = Some f"
    if "40 \<le> length evs"
    using that len processBuffer_long [of "bufferRef (run env ?r (motions evs))"] by auto
  show ?thesis
    using short long
    by (simp add: handleStop_fields r0 r1 empty processBuffer_short)
qed

theorem stop_resets_session_witness:
  "length (bufferRef (handleStop walkingSession)) = 0 \<and>
   lastPredictionRef (handleStop walkingSession) = None \<and>
   length still39 < 40 \<and>
   processBuffer (bufferRef (run keyedEnv walkingSession
      (Stop # motions idleEvents @ Start # motions still39))) = None \<and>
   40 \<le> length (timedEvents 40) \<and>
   (\<exists>f. processBuffer (bufferRef (run keyedEnv walkingSession
      (Stop # motions idleEvents @ Start # motions (timedEvents 40)))) = Some f)"
  using stop_resets_session [of walkingSession keyedEnv idleEvents still39]
    stop_resets_session [of walkingSession keyedEnv idleEvents "timedEvents 40"]
  by (simp add: still39_def length_timedEvents)

subsection \<open>The first request of a session\<close>

lemma handleMotion_fields:
  "lastPredictionRef (handleMotion s event now) = lastPredictionRef s"
  "inFlight (handleMotion s event now) = inFlight s"
  by (simp_all add: handleMotion_def Let_def)

lemma tickFire_inFlight:
  "inFlight (tickFire env s) = inFlight s \<or>
   (\<exists>f. inFlight (tickFire env s)
           = inFlight s @ [build_prompt f (or_undefined (lastPredictionRef s))])"
  by (auto simp: tickFire_def issue_def split: option.splits)

lemma unbiased_without_context: "unbiased (build_prompt f (or_undefined None))"
  by (simp add: unbiased_def build_prompt_def or_undefined_def falsy_def)

lemma step_keeps_no_context:
  assumes "lastPredictionRef s = None" and "\<not> isResponse e"
  shows "lastPredictionRef (step env s e) = None \<and>
         (\<exists>ps. inFlight (step env s e) = inFlight s @ ps \<and> list_all unbiased ps)"
proof (cases e)
  case Start
  then show ?thesis by (simp add: handleStart_fields)
next
  case Stop
  then show ?thesis by (simp add: handleStop_fields)
next
  case (Motion event now)
  then show ?thesis using assms(1) by (simp add: handleMotion_fields)
next
  case Tick
  from tickFire_inFlight [of env s] show ?thesis
  proof
    assume "inFlight (tickFire env s) = inFlight s"
    with Tick assms(1) show ?thesis by (simp add: tickFire_fields)
  next
    assume "\<exists>f. inFlight (tickFire env s)
                   = inFlight s @ [build_prompt f (or_undefined (lastPredictionRef s))]"
    then obtain f where
      "inFlight (tickFire env s) = inFlight s @ [build_prompt f (or_undefined None)]"
      using assms(1) by auto
    with Tick assms(1) show ?thesis
      by (simp add: tickFire_fields unbiased_without_context)
  qed
next
  case (Response i outcome now)
  with assms(2) show ?thesis by simp
qed

lemma run_keeps_no_context:
  assumes "lastPredictionRef s = None" and "list_all (\<lambda>e. \<not> isResponse e) evs"
  shows "lastPredictionRef (run env s evs) = None \<and>
         (\<exists>ps. inFlight (run env s evs) = inFlight s @ ps \<and> list_all unbiased ps)"
  using assms(2)
proof (induction evs rule: rev_induct)
  case Nil
  from assms(1) show ?case by (simp add: run_Nil)
next
  case (snoc e evs)
  then have quiet: "list_all (\<lambda>e. \<not> isResponse e) evs" and e: "\<not> isResponse e"
    by simp_all
  from snoc.IH [OF quiet] obtain ps where
    none: "lastPredictionRef (run env s evs) = None" and
    ps: "inFlight (run env s evs) = inFlight s @ ps" "list_all unbiased ps"
    by blast
  from step_keeps_no_context [OF none e, of env] obtain qs where
    "lastPredictionRef (step env (run env s evs) e) = None" and
    "inFlight (step env (run env s evs) e) = inFlight (run env s evs) @ qs" and
    "list_all unbiased qs"
    by blast
  with ps have "lastPredictionRef (run env s (evs @ [e])) = None \<and>
      inFlight (run env s (evs @ [e])) = inFlight s @ (ps @ qs) \<and> list_all unbiased (ps @ qs)"
    by (simp add: run_snoc)
  then show ?case by blast
qed

lemma restartedSession_fields:
  "intervalLive restartedSession" "length (bufferRef restartedSession) = 40"
  "lastPredictionRef restartedSession = Some (JStr ''Walking'')" "inFlight restartedSession = []"
proof -
  let ?a = "tickResume (handleStart stoppedSession) 0 (Parsed walking) 5"
  let ?evs = "replicate 40 (stillEvent, 6::int)"
  have one: "0 < length (inFlight (handleStart stoppedSession))"
    by (simp add: handleStart_fields stoppedSession_fields)
  have r: "restartedSession = run keyedEnv ?a (motions ?evs)"
    by (simp add: restartedSession_def run_Cons replicate_Motion)
  have a: "isRecording ?a" "intervalLive ?a" "bufferRef ?a = []"
    by (simp_all add: tickResume_fields handleStart_fields stoppedSession_fields)
  have b: "lastPredictionRef ?a = Some (JStr ''Walking'')"
    using one by (simp add: tickResume_commits settle_Parsed walking_def)
  have "length (inFlight (handleStart stoppedSession)) = 1"
    by (simp add: handleStart_fields stoppedSession_fields)
  then have c: "inFlight ?a = []"
    using one by (simp add: tickResume_commits)
  show "intervalLive restartedSession" "lastPredictionRef restartedSession = Some (JStr ''Walking'')"
    "inFlight restartedSession = []"
    using run_motions_frame [of keyedEnv ?a ?evs] by (simp_all add: r a b c)
  have "bufferRef restartedSession = append_all [] (samples ?evs)"
    using a by (simp add: r run_motions_buffer)
  then show "length (bufferRef restartedSession) = 40"
    by (simp add: append_all_most_recent length_samples MAX_BUFFER_SIZE_def)
qed

text \<open>
  Claim C10, as stated, fails: a session is stopped while a call is pending and a second
  session is started; the call settles after that start, and the first request of the
  second session carries \<open>Walking\<close>, not the marker.
\<close>

theorem stale_context_in_first_request:
  "inFlight restartedSession = [] \<and>
   map previousActivityLine (inFlight (step keyedEnv restartedSession Tick)) = [JStr ''Walking'']"
  by (simp add: tickFire_issues restartedSession_fields keyedEnv_has_key
      build_prompt_def or_undefined_def falsy_def)

text \<open>
  Claim C10, amended. Every start clears the displayed prediction and the previous-activity
  context to null, whatever the state before it; and as long as no response is delivered
  after the start, every request issued after it, the first one of the session among them,
  carries the marker \<open>None / Initializing\<close>.
\<close>

theorem start_clears_context:
  "prediction (handleStart s) = None \<and> lastPredictionRef (handleStart s) = None \<and>
   (list_all (\<lambda>e. \<not> isResponse e) evs \<longrightarrow>
      list_all unbiased (drop (length (inFlight s)) (inFlight (run env (handleStart s) evs))))"
proof (intro conjI impI)
  assume "list_all (\<lambda>e. \<not> isResponse e) evs"
  with run_keeps_no_context [of "handleStart s" evs env]
  obtain ps where "inFlight (run env (handleStart s) evs) = inFlight s @ ps"
    and "list_all unbiased ps"
    by (auto simp: handleStart_fields)
  then show "list_all unbiased (drop (length (inFlight s)) (inFlight (run env (handleStart s) evs)))"
    by simp
qed (simp_all add: handleStart_fields)

lemma firstTick_quiet: "list_all (\<lambda>e. \<not> isResponse e) firstTick"
  by (simp add: firstTick_def list_all_iff)

lemma firstTick_issues:
  assumes "isRecording s" and "intervalLive s" and "bufferRef s = []"
  shows "length (inFlight (run keyedEnv s firstTick)) = Suc (length (inFlight s))"
proof -
  let ?evs = "replicate 40 (stillEvent, 6::int)"
  let ?m = "run keyedEnv s (motions ?evs)"
  have r: "run keyedEnv s firstTick = tickFire keyedEnv ?m"
    by (simp add: firstTick_def run_snoc replicate_Motion)
  have "bufferRef ?m = append_all [] (samples ?evs)"
    using assms by (simp add: run_motions_buffer)
  then have len: "length (bufferRef ?m) = 40"
    by (simp add: append_all_most_recent length_samples MAX_BUFFER_SIZE_def)
  have fr: "intervalLive ?m" "inFlight ?m = inFlight s"
    using assms run_motions_frame [of keyedEnv s ?evs] by simp_all
  show ?thesis
    by (simp add: r tickFire_issues fr len keyedEnv_has_key)
qed

theorem start_clears_context_witness:
  "lastPredictionRef walkingSession = Some (JStr ''Walking'') \<and>
   lastPredictionRef (handleStart (handleStop walkingSession)) = None \<and>
   list_all (\<lambda>e. \<not> isResponse e) firstTick \<and>
   length (inFlight (run keyedEnv (handleStart (handleStop walkingSession)) firstTick)) = 1 \<and>
   list_all unbiased (inFlight (run keyedEnv (handleStart (handleStop walkingSession)) firstTick))"
proof -
  have a: "length (inFlight (run keyedEnv (handleStart (handleStop walkingSession)) firstTick)) = 1"
    by (simp add: firstTick_issues handleStart_fields handleStop_fields walkingSession_fields)
  have b: "length (inFlight (handleStop walkingSession)) = 0"
    by (simp add: handleStop_fields walkingSession_fields)
  show ?thesis
    using a b firstTick_quiet
      start_clears_context [of "handleStop walkingSession" firstTick keyedEnv]
    by (simp add: walkingSession_fields)
qed

end
